theory Spec2Isabelle
  imports Main "HOL-Library.Sublist"
begin

section \<open>Python values and exceptions\<close>

text \<open>
  The exceptions that the two modules can meet. \<open>shutil.rmtree\<close>, \<open>os.makedirs\<close> and
  \<open>Figure.savefig\<close> report file-system trouble with subclasses of \<open>OSError\<close>; the
  \<^theory_text>\<open>except OSError\<close> clause of the constructor catches exactly the
  exceptions for which \<open>is_OSError\<close> holds.
\<close>

datatype exn =
    FileNotFoundError
  | PermissionError
  | FileExistsError
  | NotADirectoryError
  | IsADirectoryError
  | OSError
  | AssertionError
  | IndexError
  | TypeError
  | ValueError
  | OtherError string

fun is_OSError :: "exn \<Rightarrow> bool" where
  "is_OSError FileNotFoundError = True"
| "is_OSError PermissionError = True"
| "is_OSError FileExistsError = True"
| "is_OSError NotADirectoryError = True"
| "is_OSError IsADirectoryError = True"
| "is_OSError OSError = True"
| "is_OSError _ = False"

datatype pyval = PStr string | PInt int | PBool bool | PNone

section \<open>Path and format helpers of the standard library (POSIX)\<close>

text \<open>\<open>str.split(sep)\<close> for a one-character separator: never returns the empty list.\<close>

fun split_on :: "char \<Rightarrow> string \<Rightarrow> string list" where
  "split_on c [] = [[]]"
| "split_on c (x # xs) =
     (if x = c then [] # split_on c xs
      else (let r = split_on c xs in (x # hd r) # tl r))"

text \<open>\<open>sep.join(comps)\<close>.\<close>

fun sep_join :: "string \<Rightarrow> string list \<Rightarrow> string" where
  "sep_join s [] = []"
| "sep_join s [w] = w"
| "sep_join s (w # ws) = w @ s @ sep_join s ws"

definition startswith :: "string \<Rightarrow> string \<Rightarrow> bool" where
  "startswith s p = (take (length p) s = p)"

text \<open>
  \<open>posixpath.join(a, b)\<close> with two arguments: an absolute second argument discards
  the first; otherwise one separator is put between them unless the first is empty or
  already ends with one.
\<close>

definition join :: "string \<Rightarrow> string \<Rightarrow> string" where
  "join a b =
     (if startswith b ''/'' then b
      else if a = [] \<or> last a = CHR ''/'' then a @ b
      else a @ ''/'' @ b)"

text \<open>The loop of \<open>posixpath.normpath\<close> over the split components.\<close>

fun norm_comps :: "bool \<Rightarrow> string list \<Rightarrow> string list \<Rightarrow> string list" where
  "norm_comps initial_slashes [] new_comps = new_comps"
| "norm_comps initial_slashes (cmp # comps) new_comps =
     (if cmp = [] \<or> cmp = ''.'' then norm_comps initial_slashes comps new_comps
      else if cmp \<noteq> ''..'' \<or> (\<not> initial_slashes \<and> new_comps = [])
              \<or> (new_comps \<noteq> [] \<and> last new_comps = ''..'')
        then norm_comps initial_slashes comps (new_comps @ [cmp])
      else if new_comps \<noteq> [] then norm_comps initial_slashes comps (butlast new_comps)
      else norm_comps initial_slashes comps new_comps)"

definition normpath :: "string \<Rightarrow> string" where
  "normpath path =
     (if path = [] then ''.''
      else
        (let initial_slashes =
               (if startswith path ''/''
                then (if startswith path ''//'' \<and> \<not> startswith path ''///''
                      then 2 else (1::nat))
                else 0);
             comps = norm_comps (initial_slashes \<noteq> 0) (split_on CHR ''/'' path) [];
             p = sep_join ''/'' comps;
             p' = (if initial_slashes \<noteq> 0 then replicate initial_slashes CHR ''/'' @ p else p)
         in if p' = [] then ''.'' else p'))"

text \<open>
  \<open>posixpath.abspath\<close>; the process's working directory \<open>cwd\<close> is what
  \<open>os.getcwd()\<close> returns.
\<close>

definition abspath :: "string \<Rightarrow> string \<Rightarrow> string" where
  "abspath cwd path =
     normpath (if \<not> startswith path ''/'' then join cwd path else path)"

text \<open>Decimal digits of a natural number, most significant first (\<open>str(n)\<close>).\<close>

fun digits10 :: "nat \<Rightarrow> string" where
  "digits10 n =
     (if n < 10 then [''0123456789'' ! n]
      else digits10 (n div 10) @ [''0123456789'' ! (n mod 10)])"

declare digits10.simps [simp del]

text \<open>
  \<open>"%03d" % n\<close>: the sign, if any, counts towards the minimum width of three, the
  padding is zeros between sign and digits, and a longer number is printed in full.
\<close>

definition fmt_03d :: "int \<Rightarrow> string" where
  "fmt_03d n =
     (let ds = digits10 (nat \<bar>n\<bar>)
      in if n < 0 then CHR ''-'' # replicate (2 - length ds) CHR ''0'' @ ds
         else replicate (3 - length ds) CHR ''0'' @ ds)"

text \<open>\<open>"figure_%03d.png" % n\<close>\<close>

definition fmt_figure_png :: "int \<Rightarrow> string" where
  "fmt_figure_png n = ''figure_'' @ fmt_03d n @ ''.png''"

section \<open>notebook\_image\_handling.FigureDisplay\<close>

text \<open>
  A matplotlib figure, as far as the handler touches it: the drawn content (opaque),
  the super-title set by \<open>fig.suptitle(title, **kwargs)\<close>, the face colour read by
  \<open>fig.get_facecolor()\<close>, and whether pyplot still holds it open. Setting the title
  and closing the figure work in memory and are taken to succeed.
\<close>

record 'c Figure =
  fig_content :: 'c
  fig_suptitle :: "(string \<times> (string \<rightharpoonup> pyval)) option"
  fig_facecolor :: string
  fig_open :: bool

definition Figure_suptitle ::
  "'c Figure \<Rightarrow> string \<Rightarrow> (string \<rightharpoonup> pyval) \<Rightarrow> 'c Figure" where
  "Figure_suptitle fig t kwargs = fig\<lparr>fig_suptitle := Some (t, kwargs)\<rparr>"

definition plt_close :: "'c Figure \<Rightarrow> 'c Figure" where
  "plt_close fig = fig\<lparr>fig_open := False\<rparr>"

text \<open>
  The collaborators outside the repository, over a file-system state \<open>'fs\<close>:
  \<open>shutil.rmtree\<close>, \<open>os.makedirs\<close> and \<open>Figure.savefig\<close> return the exception they
  raise (if any) and the file system they leave behind; \<open>display(Image(fname))\<close>
  reads the file and returns a handle or raises (what it renders into the notebook is
  not part of the state); \<open>plt.gcf()\<close> is the current figure.
\<close>

record ('fs, 'c, 'h) env =
  shutil_rmtree :: "'fs \<Rightarrow> string \<Rightarrow> exn option \<times> 'fs"
  os_makedirs :: "'fs \<Rightarrow> string \<Rightarrow> exn option \<times> 'fs"
  fig_savefig :: "'fs \<Rightarrow> 'c Figure \<Rightarrow> string \<Rightarrow> string \<Rightarrow> string \<Rightarrow> exn option \<times> 'fs"
  display_Image :: "'fs \<Rightarrow> string \<Rightarrow> exn + 'h"
  plt_gcf :: "'c Figure"

record FigureDisplay =
  report_name :: string
  show_title :: bool
  current_number :: int
  suptitle_kwargs :: "string \<rightharpoonup> pyval"
  dir_name :: string

definition default_suptitle_kwargs :: "string \<rightharpoonup> pyval" where
  "default_suptitle_kwargs =
     [''ha'' \<mapsto> PStr ''left'', ''ma'' \<mapsto> PStr ''left'', ''x'' \<mapsto> PInt 0,
      ''va'' \<mapsto> PStr ''bottom'']"

text \<open>
  \<open>FigureDisplay.__init__\<close>. The result is the exception that leaves the constructor,
  or the new object, together with the file system afterwards.
\<close>

definition FigureDisplay_init ::
  "('fs, 'c, 'h) env \<Rightarrow> string \<Rightarrow> string \<Rightarrow> bool \<Rightarrow> string \<Rightarrow> (string \<rightharpoonup> pyval) \<Rightarrow> 'fs
     \<Rightarrow> (exn + FigureDisplay) \<times> 'fs" where
  "FigureDisplay_init env cwd rname stitle parent_directory kwargs fs =
     (let parent = abspath cwd parent_directory;
          self = \<lparr> report_name = rname, show_title = stitle, current_number = 1,
                   suptitle_kwargs = default_suptitle_kwargs ++ kwargs,
                   dir_name = join parent rname \<rparr>
      in case shutil_rmtree env fs (dir_name self) of
           (Some e, fs1) \<Rightarrow>
             if is_OSError e
             then (case os_makedirs env fs1 (dir_name self) of
                     (Some e2, fs2) \<Rightarrow> (Inl e2, fs2)
                   | (None, fs2) \<Rightarrow> (Inr self, fs2))
             else (Inl e, fs1)
         | (None, fs1) \<Rightarrow>
             (case os_makedirs env fs1 (dir_name self) of
                (Some e2, fs2) \<Rightarrow> (Inl e2, fs2)
              | (None, fs2) \<Rightarrow> (Inr self, fs2)))"

text \<open>
  \<open>FigureDisplay.figsave\<close>. Returns the exception or the file name, the handler, the
  figure and the file system as the call leaves them.
\<close>

definition figsave ::
  "('fs, 'c, 'h) env \<Rightarrow> FigureDisplay \<Rightarrow> 'c Figure \<Rightarrow> string option \<Rightarrow> 'fs
     \<Rightarrow> (exn + string) \<times> FigureDisplay \<times> 'c Figure \<times> 'fs" where
  "figsave env self fig title fs =
     (let fig1 = (case title of
                    Some t \<Rightarrow> if show_title self = True
                              then Figure_suptitle fig t (suptitle_kwargs self) else fig
                  | None \<Rightarrow> fig);
          current_figure_number = current_number self;
          fname = join (dir_name self) (fmt_figure_png current_figure_number)
      in case fig_savefig env fs fig1 fname ''tight'' (fig_facecolor fig1) of
           (Some e, fs1) \<Rightarrow> (Inl e, self, fig1, fs1)
         | (None, fs1) \<Rightarrow>
             (Inr fname, self\<lparr>current_number := current_number self + 1\<rparr>,
              plt_close fig1, fs1))"

text \<open>\<open>FigureDisplay.figdisp\<close>: save, then display the saved file.\<close>

definition figdisp ::
  "('fs, 'c, 'h) env \<Rightarrow> FigureDisplay \<Rightarrow> 'c Figure \<Rightarrow> string option \<Rightarrow> 'fs
     \<Rightarrow> (exn + 'h) \<times> FigureDisplay \<times> 'c Figure \<times> 'fs" where
  "figdisp env self fig title fs =
     (case figsave env self fig title fs of
        (Inl e, self1, fig1, fs1) \<Rightarrow> (Inl e, self1, fig1, fs1)
      | (Inr fname, self1, fig1, fs1) \<Rightarrow> (display_Image env fs1 fname, self1, fig1, fs1))"

text \<open>\<open>FigureDisplay.__call__\<close>: without a figure, use pyplot's current one.\<close>

definition FigureDisplay_call ::
  "('fs, 'c, 'h) env \<Rightarrow> FigureDisplay \<Rightarrow> 'c Figure option \<Rightarrow> string option \<Rightarrow> 'fs
     \<Rightarrow> (exn + 'h) \<times> FigureDisplay \<times> 'c Figure \<times> 'fs" where
  "FigureDisplay_call env self fig title fs =
     (let fig' = (case fig of None \<Rightarrow> plt_gcf env | Some f \<Rightarrow> f)
      in figdisp env self fig' title fs)"

text \<open>
  A caller that makes consecutive \<open>figsave\<close> calls on one handler, catching whatever a
  call raises and going on: the outcomes in call order, the handler and the file system
  at the end.
\<close>

fun figsave_calls ::
  "('fs, 'c, 'h) env \<Rightarrow> FigureDisplay \<Rightarrow> ('c Figure \<times> string option) list \<Rightarrow> 'fs
     \<Rightarrow> (exn + string) list \<times> FigureDisplay \<times> 'fs" where
  "figsave_calls env self [] fs = ([], self, fs)"
| "figsave_calls env self ((fig, title) # calls) fs =
     (case figsave env self fig title fs of
        (r, self1, fig1, fs1) \<Rightarrow>
          (case figsave_calls env self1 calls fs1 of
             (rs, self2, fs2) \<Rightarrow> (r # rs, self2, fs2)))"

text \<open>The file names returned by the calls that did not raise.\<close>

fun returned :: "(exn + 'a) list \<Rightarrow> 'a list" where
  "returned [] = []"
| "returned (Inl e # rs) = returned rs"
| "returned (Inr x # rs) = x # returned rs"

text \<open>Reading a decimal numeral back (\<open>int(s)\<close> on a string of digits).\<close>

definition digit_val :: "char \<Rightarrow> nat" where
  "digit_val c = of_char c - 48"

definition read10 :: "string \<Rightarrow> nat" where
  "read10 s = foldl (\<lambda>a c. 10 * a + digit_val c) 0 s"

section \<open>A reference file system\<close>

text \<open>
  A small POSIX-like disk on which the handler can be run: directories and files are
  named by their path components, and \<open>protected\<close> lists entries that the process may
  not remove (they sit in a directory without write permission). It serves as a concrete
  instance of the collaborators above.
\<close>

record 'c disk =
  dirs :: "string list list"
  files :: "(string list \<times> 'c Figure) list"
  protected :: "string list list"

definition components :: "string \<Rightarrow> string list" where
  "components p = filter (\<lambda>w. w \<noteq> []) (split_on CHR ''/'' p)"

definition is_dir :: "'c disk \<Rightarrow> string list \<Rightarrow> bool" where
  "is_dir d c = (c = [] \<or> c \<in> set (dirs d))"

definition is_file :: "'c disk \<Rightarrow> string list \<Rightarrow> bool" where
  "is_file d c = (c \<in> fst ` set (files d))"

definition disk_rmtree :: "'c disk \<Rightarrow> string \<Rightarrow> exn option \<times> 'c disk" where
  "disk_rmtree d p =
     (let c = components p
      in if is_file d c then (Some NotADirectoryError, d)
         else if \<not> is_dir d c then (Some FileNotFoundError, d)
         else if \<exists>q \<in> set (protected d). prefix c q then (Some PermissionError, d)
         else (None, d\<lparr>dirs := filter (\<lambda>q. \<not> prefix c q) (dirs d),
                        files := filter (\<lambda>(q, f). \<not> prefix c q) (files d)\<rparr>))"

definition disk_makedirs :: "'c disk \<Rightarrow> string \<Rightarrow> exn option \<times> 'c disk" where
  "disk_makedirs d p =
     (let c = components p
      in if is_dir d c \<or> is_file d c then (Some FileExistsError, d)
         else (None, d\<lparr>dirs := dirs d @ filter (\<lambda>q. \<not> is_dir d q) (prefixes c)\<rparr>))"

definition disk_savefig ::
  "'c disk \<Rightarrow> 'c Figure \<Rightarrow> string \<Rightarrow> string \<Rightarrow> string \<Rightarrow> exn option \<times> 'c disk" where
  "disk_savefig d fig fname bbox_inches facecolor =
     (let c = components fname
      in if is_dir d c then (Some IsADirectoryError, d)
         else if \<not> is_dir d (butlast c) then (Some FileNotFoundError, d)
         else if c \<in> set (protected d) then (Some PermissionError, d)
         else (None, d\<lparr>files := (c, fig) # filter (\<lambda>(q, f). q \<noteq> c) (files d)\<rparr>))"

definition disk_display :: "'c disk \<Rightarrow> string \<Rightarrow> exn + 'c Figure" where
  "disk_display d fname =
     (case map_of (files d) (components fname) of
        None \<Rightarrow> Inl FileNotFoundError
      | Some f \<Rightarrow> Inr f)"

definition disk_env :: "'c Figure \<Rightarrow> ('c disk, 'c, 'c Figure) env" where
  "disk_env current =
     \<lparr> shutil_rmtree = disk_rmtree, os_makedirs = disk_makedirs,
       fig_savefig = disk_savefig, display_Image = disk_display, plt_gcf = current \<rparr>"

definition blank :: "unit Figure" where
  "blank = \<lparr> fig_content = (), fig_suptitle = None, fig_facecolor = ''white'',
             fig_open = True \<rparr>"

section \<open>tarshim: residual plots\<close>

text \<open>
  One-dimensional numeric arrays are lists over an element type with its own
  subtraction and comparison (for numpy these are the IEEE operations; nothing below
  depends on their laws). An axes object is the sequence of drawing calls made on it.
\<close>

datatype 'a draw =
    Regplot "'a list" "'a list"
  | Plot "'a list" "'a list" string
  | Set_aspect_equal
  | Set_xlim 'a 'a
  | Set_ylim 'a 'a
  | Despine
  | Axhline_zero
  | Set_xlabel string
  | Set_ylabel string
  | Text_at_xmax_ymax string
  | Text_at_xmax_ymin string
  | Kdeplot "'a list"
  | Spine_bottom_at_zero
  | Secondary_yticks "'a list"
  | Set_yticks_zero
  | Set_xticks_none
  | Reverse_xlim

text \<open>\<open>a - b\<close> on one-dimensional arrays, with numpy's broadcasting of a length-one side.\<close>

definition np_sub :: "'a::minus list \<Rightarrow> 'a list \<Rightarrow> exn + 'a list" where
  "np_sub xs ys =
     (if length xs = length ys then Inr (map2 (-) xs ys)
      else if length xs = 1 then Inr (map (\<lambda>y. hd xs - y) ys)
      else if length ys = 1 then Inr (map (\<lambda>x. x - hd ys) xs)
      else Inl ValueError)"

text \<open>\<open>ax.plot(x, y, fmt)\<close> refuses data of different lengths.\<close>

definition ax_plot :: "'a draw list \<Rightarrow> 'a list \<Rightarrow> 'a list \<Rightarrow> string \<Rightarrow> exn + 'a draw list" where
  "ax_plot ax xs ys fmt =
     (if length xs = length ys then Inr (ax @ [Plot xs ys fmt]) else Inl ValueError)"

text \<open>The built-ins \<open>min\<close> and \<open>max\<close> over a sequence: the first extremal element.\<close>

fun py_min :: "'a::ord list \<Rightarrow> exn + 'a" where
  "py_min [] = Inl ValueError"
| "py_min (x # xs) = Inr (fold (\<lambda>y m. if y < m then y else m) xs x)"

fun py_max :: "'a::ord list \<Rightarrow> exn + 'a" where
  "py_max [] = Inl ValueError"
| "py_max (x # xs) = Inr (fold (\<lambda>y m. if m < y then y else m) xs x)"

text \<open>\<open>np.percentile\<close>, \<open>np.mean\<close> and \<open>np.round(_, 1)\<close> are taken as given.\<close>

record 'a numpy =
  np_percentile :: "'a list \<Rightarrow> nat list \<Rightarrow> 'a list"
  np_mean :: "'a list \<Rightarrow> 'a"
  np_round1 :: "'a list \<Rightarrow> 'a list"

definition actual_plot_observed_vs_predicted ::
  "'a::ord list \<Rightarrow> 'a list \<Rightarrow> 'a draw list option \<Rightarrow> bool \<Rightarrow> exn + 'a draw list" where
  "actual_plot_observed_vs_predicted observations predictions ax ylabel =
     (let ax0 = (case ax of None \<Rightarrow> [] | Some a \<Rightarrow> a);
          ax1 = ax0 @ [Regplot predictions observations]
      in case (py_min observations, py_min predictions) of
           (Inl e, _) \<Rightarrow> Inl e
         | (Inr a, Inl e) \<Rightarrow> Inl e
         | (Inr a, Inr b) \<Rightarrow>
             (case py_min [a, b] of
                Inl e \<Rightarrow> Inl e
              | Inr mn \<Rightarrow>
                  (case (py_max observations, py_max predictions) of
                     (Inl e, _) \<Rightarrow> Inl e
                   | (Inr a', Inl e) \<Rightarrow> Inl e
                   | (Inr a', Inr b') \<Rightarrow>
                       (case py_max [a', b'] of
                          Inl e \<Rightarrow> Inl e
                        | Inr mx \<Rightarrow>
                            (let ax2 = ax1 @ [Set_aspect_equal, Plot [mn, mx] [mn, mx] ''--'',
                                              Set_xlim mn mx, Set_ylim mn mx, Despine,
                                              Set_xlabel ''Predicted'']
                             in Inr (if ylabel then ax2 @ [Set_ylabel ''Observed'']
                                     else ax2))))))"

definition plot_residuals ::
  "'a::minus list \<Rightarrow> 'a list \<Rightarrow> 'a draw list option \<Rightarrow> bool \<Rightarrow> exn + 'a draw list" where
  "plot_residuals observations predictions ax ylabel =
     (let ax0 = (case ax of None \<Rightarrow> [] | Some a \<Rightarrow> a)
      in case np_sub observations predictions of
           Inl e \<Rightarrow> Inl e
         | Inr residuals \<Rightarrow>
             (case ax_plot ax0 predictions residuals ''o'' of
                Inl e \<Rightarrow> Inl e
              | Inr ax1 \<Rightarrow>
                  (let ax2 = ax1 @ [Despine, Axhline_zero, Set_xlabel ''Predicted''];
                       ax3 = (if ylabel then ax2 @ [Set_ylabel ''Obs $-$ Pred''] else ax2)
                   in Inr (ax3 @ [Text_at_xmax_ymax ''Overestimation'',
                                  Text_at_xmax_ymin ''Underestimation'']))))"

definition plot_residual_kde ::
  "'a numpy \<Rightarrow> 'a list \<Rightarrow> 'a draw list \<Rightarrow> 'a draw list" where
  "plot_residual_kde np residuals ax =
     (let ax1 = ax @ [Kdeplot residuals, Despine, Spine_bottom_at_zero];
          ps = np_percentile np residuals [5, 25, 75, 95];
          ps' = ps @ [np_mean np residuals];
          tks = np_round1 np ps'
      in ax1 @ [Secondary_yticks tks, Set_yticks_zero, Set_xticks_none, Reverse_xlim])"

text \<open>
  \<open>plot_observed_vs_predicted\<close>: the three axes of the composite figure, in the order
  observed-versus-predicted, residuals, residual density.
\<close>

definition plot_observed_vs_predicted ::
  "'a::{minus,ord} numpy \<Rightarrow> 'a list \<Rightarrow> 'a list
     \<Rightarrow> exn + ('a draw list \<times> 'a draw list \<times> 'a draw list)" where
  "plot_observed_vs_predicted np observations predictions =
     (case actual_plot_observed_vs_predicted observations predictions (Some []) True of
        Inl e \<Rightarrow> Inl e
      | Inr ax_obs_pred \<Rightarrow>
          (case plot_residuals observations predictions (Some []) True of
             Inl e \<Rightarrow> Inl e
           | Inr ax_residuals \<Rightarrow>
               (case np_sub observations predictions of
                  Inl e \<Rightarrow> Inl e
                | Inr residuals \<Rightarrow>
                    Inr (ax_obs_pred, ax_residuals, plot_residual_kde np residuals []))))"

text \<open>The points of the scatter drawn with marker \<open>'o'\<close>, and the data given to the density plot.\<close>

fun scatter_points :: "'a draw list \<Rightarrow> ('a \<times> 'a) list" where
  "scatter_points [] = []"
| "scatter_points (Plot xs ys fmt # ax) =
     (if fmt = ''o'' then zip xs ys @ scatter_points ax else scatter_points ax)"
| "scatter_points (_ # ax) = scatter_points ax"

fun density_input :: "'a draw list \<Rightarrow> 'a list" where
  "density_input [] = []"
| "density_input (Kdeplot xs # ax) = xs @ density_input ax"
| "density_input (_ # ax) = density_input ax"

section \<open>tarshim: figures in HTML tables\<close>

text \<open>
  Column labels: a string, an integer, or a tuple of labels (the labels of a multi-level
  column index). \<open>getitem1 c\<close> is \<open>c[1]\<close>.
\<close>

datatype label = LStr string | LInt int | LTuple "label list"

fun getitem1 :: "label \<Rightarrow> exn + label" where
  "getitem1 (LTuple xs) = (if 1 < length xs then Inr (xs ! 1) else Inl IndexError)"
| "getitem1 (LStr s) = (if 1 < length s then Inr (LStr [s ! 1]) else Inl IndexError)"
| "getitem1 (LInt i) = Inl TypeError"

record 'v DataFrame =
  df_columns :: "label list"
  df_rows :: "'v list list"

text \<open>
  What pandas and the image back end contribute: the membership test of the column
  index (\<open>c in df.columns\<close>), \<open>DataFrame.to_html\<close> with its per-column formatters
  (a column without an entry gets the default formatting), the PNG bytes of a figure
  cell, and base64.
\<close>

record 'v pandas =
  Index_contains :: "label list \<Rightarrow> label \<Rightarrow> bool"
  to_html :: "'v DataFrame \<Rightarrow> (label \<rightharpoonup> ('v \<Rightarrow> exn + string)) \<Rightarrow> exn + string"
  savefig_png :: "'v \<Rightarrow> exn + string"
  b64encode :: "string \<Rightarrow> string"

definition cell_figure_mapping :: "'v pandas \<Rightarrow> 'v \<Rightarrow> exn + string" where
  \<open>cell_figure_mapping pd fig =
     (case savefig_png pd fig of
        Inl e \<Rightarrow> Inl e
      | Inr png \<Rightarrow> Inr (''<img src="data:image/png;base64,'' @ b64encode pd png @ ''" />''))\<close>

datatype figure_columns = FC_None | FC_Str string | FC_List "label list"

text \<open>\<open>[c for c in df.columns if c[1] == 'fig']\<close>\<close>

fun infer_columns :: "label list \<Rightarrow> exn + label list" where
  "infer_columns [] = Inr []"
| "infer_columns (c # cs) =
     (case getitem1 c of
        Inl e \<Rightarrow> Inl e
      | Inr l \<Rightarrow>
          (case infer_columns cs of
             Inl e \<Rightarrow> Inl e
           | Inr r \<Rightarrow> Inr (if l = LStr ''fig'' then c # r else r)))"

text \<open>\<open>for c in figure_columns: assert c in df.columns\<close>\<close>

fun assert_columns :: "'v pandas \<Rightarrow> 'v DataFrame \<Rightarrow> label list \<Rightarrow> exn option" where
  "assert_columns pd df [] = None"
| "assert_columns pd df (c # cs) =
     (if Index_contains pd (df_columns df) c then assert_columns pd df cs
      else Some AssertionError)"

definition html_from_dataframe ::
  "'v pandas \<Rightarrow> 'v DataFrame \<Rightarrow> figure_columns \<Rightarrow> exn + string" where
  "html_from_dataframe pd df fcols =
     (case (case fcols of
              FC_None \<Rightarrow> Inr []
            | FC_Str s \<Rightarrow>
                if s = ''infer'' then infer_columns (df_columns df)
                else (case assert_columns pd df (map (\<lambda>ch. LStr [ch]) s) of
                        Some e \<Rightarrow> Inl e
                      | None \<Rightarrow> Inr (map (\<lambda>ch. LStr [ch]) s))
            | FC_List cs \<Rightarrow>
                (case assert_columns pd df cs of
                   Some e \<Rightarrow> Inl e
                 | None \<Rightarrow> Inr cs)) of
        Inl e \<Rightarrow> Inl e
      | Inr figure_columns \<Rightarrow>
          to_html pd df (map_of (map (\<lambda>c. (c, cell_figure_mapping pd)) figure_columns)))"

section \<open>Concrete runs\<close>

text \<open>
  A home directory \<open>/home/u\<close> on the reference disk, a handler for the report \<open>rep\<close>
  constructed there with the default parent directory, and three saves on it.
\<close>

definition home_disk :: "unit disk" where
  "home_disk = \<lparr> dirs = [[''home''], [''home'', ''u'']], files = [], protected = [] \<rparr>"

definition three_calls :: "(unit Figure \<times> string option) list" where
  "three_calls = [(blank, None), (blank, Some ''Residuals''), (blank, None)]"

definition rep_init :: "(exn + FigureDisplay) \<times> unit disk" where
  "rep_init = FigureDisplay_init (disk_env blank) ''/home/u'' ''rep'' True ''figures''
                Map.empty home_disk"

definition rep_saves :: "(exn + string) list \<times> FigureDisplay \<times> unit disk" where
  "rep_saves = figsave_calls (disk_env blank) (projr (fst rep_init)) three_calls (snd rep_init)"

text \<open>A fourth save after the three, and a save after the report directory has vanished.\<close>

definition rep_fourth :: "(exn + string) \<times> FigureDisplay \<times> unit Figure \<times> unit disk" where
  "rep_fourth = figsave (disk_env blank) (fst (snd rep_saves)) blank None (snd (snd rep_saves))"

definition rep_lost :: "(exn + string) \<times> FigureDisplay \<times> unit Figure \<times> unit disk" where
  "rep_lost = figsave (disk_env blank) (projr (fst rep_init)) blank None home_disk"

text \<open>
  The same report directory, already holding a figure that the process may not remove.
\<close>

definition locked_disk :: "unit disk" where
  "locked_disk =
     \<lparr> dirs = [[''home''], [''home'', ''u''], [''home'', ''u'', ''figures''],
               [''home'', ''u'', ''figures'', ''rep'']],
       files = [([''home'', ''u'', ''figures'', ''rep'', ''figure_001.png''], blank)],
       protected = [[''home'', ''u'', ''figures'', ''rep'', ''figure_001.png'']] \<rparr>"

definition locked_init :: "(exn + FigureDisplay) \<times> unit disk" where
  "locked_init = FigureDisplay_init (disk_env blank) ''/home/u'' ''rep'' True ''figures''
                   Map.empty locked_disk"

text \<open>
  Displaying and saving a titled figure; a handler with one title option overridden,
  three saves on it, and a titled save after them.
\<close>

definition titled_disp :: "(exn + unit Figure) \<times> FigureDisplay \<times> unit Figure \<times> unit disk" where
  "titled_disp = figdisp (disk_env blank) (projr (fst rep_init)) blank (Some ''Residuals'')
                   (snd rep_init)"

definition titled_save :: "(exn + string) \<times> FigureDisplay \<times> unit Figure \<times> unit disk" where
  "titled_save = figsave (disk_env blank) (projr (fst rep_init)) blank (Some ''Residuals'')
                   (snd rep_init)"

definition styled_init :: "(exn + FigureDisplay) \<times> unit disk" where
  "styled_init = FigureDisplay_init (disk_env blank) ''/home/u'' ''rep'' True ''figures''
                  [''x'' \<mapsto> PInt 1] home_disk"

definition styled_saves :: "(exn + string) list \<times> FigureDisplay \<times> unit disk" where
  "styled_saves = figsave_calls (disk_env blank) (projr (fst styled_init)) three_calls
                    (snd styled_init)"

definition styled_save :: "(exn + string) \<times> FigureDisplay \<times> unit Figure \<times> unit disk" where
  "styled_save = figsave (disk_env blank) (fst (snd styled_saves)) blank (Some ''Residuals'')
                   (snd (snd styled_saves))"

text \<open>
  A parent directory that holds the figures of two reports, and a handler constructed
  with the empty report name.
\<close>

definition shared_disk :: "unit disk" where
  "shared_disk =
     \<lparr> dirs = [[''home''], [''home'', ''u''], [''home'', ''u'', ''figures''],
               [''home'', ''u'', ''figures'', ''rep''],
               [''home'', ''u'', ''figures'', ''other'']],
       files = [([''home'', ''u'', ''figures'', ''rep'', ''figure_001.png''], blank),
                ([''home'', ''u'', ''figures'', ''other'', ''figure_001.png''], blank)],
       protected = [] \<rparr>"

definition unnamed_init :: "(exn + FigureDisplay) \<times> unit disk" where
  "unnamed_init = FigureDisplay_init (disk_env blank) ''/home/u'' '''' True ''figures''
                    Map.empty shared_disk"

text \<open>
  A table renderer that wraps each cell in \<open><td>\<close>, with exact membership on the column
  labels; a table with two-level column labels and one with plain labels; and integer
  arrays with stand-ins for the summary statistics.
\<close>

definition plain_pandas :: "string pandas" where
  "plain_pandas =
     \<lparr> Index_contains = (\<lambda>cols c. c \<in> set cols),
       to_html = (\<lambda>df fm. Inr (concat (map (\<lambda>row. concat (map2
                    (\<lambda>c v. case fm c of
                              None \<Rightarrow> ''<td>'' @ v @ ''</td>''
                            | Some f \<Rightarrow> (case f v of
                                          Inl e \<Rightarrow> ''<td></td>''
                                        | Inr s \<Rightarrow> ''<td>'' @ s @ ''</td>''))
                    (df_columns df) row)) (df_rows df)))),
       savefig_png = Inr,
       b64encode = id \<rparr>"

definition two_level_df :: "string DataFrame" where
  "two_level_df =
     \<lparr> df_columns = [LTuple [LStr ''model'', LStr ''name''],
                     LTuple [LStr ''residuals'', LStr ''fig'']],
       df_rows = [[''ols'', ''iVBOR'']] \<rparr>"

definition flat_df :: "string DataFrame" where
  "flat_df = \<lparr> df_columns = [LStr ''model'', LStr ''plot''], df_rows = [[''ols'', ''iVBOR'']] \<rparr>"

definition int_numpy :: "int numpy" where
  "int_numpy = \<lparr> np_percentile = (\<lambda>xs ps. map (\<lambda>p. fold min xs (hd xs)) ps),
                 np_mean = (\<lambda>xs. sum_list xs div int (length xs)),
                 np_round1 = id \<rparr>"

section \<open>Decimal formatting and file names\<close>

lemma lt10_cases: "(d::nat) < 10 \<Longrightarrow> d \<in> {0, 1, 2, 3, 4, 5, 6, 7, 8, 9}"
  by auto

lemma digit_val_nth: "d < 10 \<Longrightarrow> digit_val (''0123456789'' ! d) = d"
  by (drule lt10_cases) (auto simp: digit_val_def)

lemma read10_snoc: "read10 (s @ [c]) = 10 * read10 s + digit_val c"
  by (simp add: read10_def)

lemma read10_digits10: "read10 (digits10 n) = n"
proof (induction n rule: digits10.induct)
  case (1 n)
  show ?case
  proof (cases "n < 10")
    case True
    then show ?thesis by (subst digits10.simps) (simp add: read10_def digit_val_nth)
  next
    case False
    then have "read10 (digits10 (n div 10)) = n div 10" using 1 by simp
    with False show ?thesis
      by (subst digits10.simps) (simp add: read10_snoc digit_val_nth)
  qed
qed

lemma read10_zeros: "read10 (replicate k CHR ''0'' @ s) = read10 s"
proof (induction k)
  case 0 show ?case by simp
next
  case (Suc k)
  have "foldl (\<lambda>a c. 10 * a + digit_val c) 0 (CHR ''0'' # replicate k CHR ''0'' @ s)
      = foldl (\<lambda>a c. 10 * a + digit_val c) 0 (replicate k CHR ''0'' @ s)"
    by (simp add: digit_val_def)
  with Suc show ?case by (simp add: read10_def)
qed

lemma read10_fmt_03d: "0 \<le> n \<Longrightarrow> int (read10 (fmt_03d n)) = n"
  by (simp add: fmt_03d_def Let_def read10_zeros read10_digits10)

lemma length_fmt_03d: "3 \<le> length (fmt_03d n)"
  by (auto simp: fmt_03d_def Let_def)

lemma length_digits10: "10 ^ k \<le> n \<Longrightarrow> k < length (digits10 n)"
proof (induction k arbitrary: n)
  case 0
  then show ?case by (subst digits10.simps) simp
next
  case (Suc k)
  then have le: "10 ^ k \<le> n div 10" by simp
  then have "k < length (digits10 (n div 10))" by (rule Suc.IH)
  moreover have "0 < (10::nat) ^ k" by simp
  with le have "0 < n div 10" by linarith
  then have "\<not> n < 10" by auto
  ultimately show ?case by (subst digits10.simps) simp
qed

lemma fmt_03d_large: "1000 \<le> n \<Longrightarrow> fmt_03d n = digits10 (nat n)"
proof -
  assume h: "1000 \<le> n"
  then have "10 ^ 3 \<le> nat n" by simp
  then have "3 < length (digits10 (nat n))" by (rule length_digits10)
  with h show ?thesis by (simp add: fmt_03d_def Let_def)
qed

lemma fmt_03d_inj: "0 \<le> m \<Longrightarrow> 0 \<le> n \<Longrightarrow> fmt_03d m = fmt_03d n \<Longrightarrow> m = n"
  by (metis read10_fmt_03d)

lemma join_figure:
  "join d (fmt_figure_png n) =
     (if d = [] \<or> last d = CHR ''/'' then d else d @ ''/'') @ fmt_figure_png n"
  by (simp add: join_def startswith_def fmt_figure_png_def)

lemma fmt_figure_png_inj:
  assumes "0 \<le> m" "0 \<le> n" and "fmt_figure_png m = fmt_figure_png n"
  shows "m = n"
proof -
  from assms(3) have "fmt_03d m = fmt_03d n" by (simp add: fmt_figure_png_def)
  with assms(1,2) show ?thesis by (rule fmt_03d_inj)
qed

lemma join_figure_inj:
  assumes "0 \<le> m" "0 \<le> n"
    and "join d (fmt_figure_png m) = join d (fmt_figure_png n)"
  shows "m = n"
proof -
  from assms(3) have "fmt_figure_png m = fmt_figure_png n"
    by (simp add: join_figure)
  with assms(1,2) show ?thesis by (rule fmt_figure_png_inj)
qed

lemma init_Inr:
  assumes "FigureDisplay_init env cwd rn st pd kw fs = (Inr self, fs')"
  shows "self = \<lparr> report_name = rn, show_title = st, current_number = 1,
                  suptitle_kwargs = default_suptitle_kwargs ++ kw,
                  dir_name = join (abspath cwd pd) rn \<rparr>"
  using assms
  by (auto simp: FigureDisplay_init_def Let_def split: prod.splits option.splits if_splits)

lemma figsave_Inr:
  assumes "figsave env self fig title fs = (Inr fname, self', fig', fs')"
  shows "fname = join (dir_name self) (fmt_figure_png (current_number self))"
    and "self' = self\<lparr>current_number := current_number self + 1\<rparr>"
  using assms
  by (auto simp: figsave_def Let_def split: prod.splits option.splits)

lemma figsave_Inl:
  assumes "figsave env self fig title fs = (Inl e, self', fig', fs')"
  shows "self' = self"
  using assms
  by (auto simp: figsave_def Let_def split: prod.splits option.splits)

lemma figsave_calls_names:
  assumes "figsave_calls env self calls fs = (rs, self', fs')"
  shows "returned rs =
           map (\<lambda>i. join (dir_name self)
                       (fmt_figure_png (current_number self + int i)))
               [0..<length (returned rs)]
         \<and> current_number self' = current_number self + int (length (returned rs))
         \<and> dir_name self' = dir_name self
         \<and> length rs = length calls"
  using assms
proof (induction calls arbitrary: self fs rs self' fs')
  case Nil
  then show ?case by simp
next
  case (Cons call calls)
  obtain fig title where call: "call = (fig, title)" by (cases call)
  obtain r self1 fig1 fs1 where s1: "figsave env self fig title fs = (r, self1, fig1, fs1)"
    by (metis prod_cases4)
  obtain rs1 self2 fs2 where s2: "figsave_calls env self1 calls fs1 = (rs1, self2, fs2)"
    by (metis prod_cases3)
  from Cons.prems call s1 s2 have eqs: "rs = r # rs1" "self' = self2" "fs' = fs2"
    by simp_all
  note IH = Cons.IH [OF s2]
  show ?case
  proof (cases r)
    case (Inl e)
    with s1 have "self1 = self" by (simp add: figsave_Inl)
    with IH eqs Inl show ?thesis by simp
  next
    case (Inr fname)
    with s1 have f: "fname = join (dir_name self) (fmt_figure_png (current_number self))"
      and s: "self1 = self\<lparr>current_number := current_number self + 1\<rparr>"
      by (simp_all add: figsave_Inr)
    let ?f = "\<lambda>i. join (dir_name self) (fmt_figure_png (current_number self + int i))"
    from IH s have tl: "returned rs1 = map (\<lambda>i. ?f (Suc i)) [0..<length (returned rs1)]"
      by (simp add: ac_simps)
    have "map ?f [0..<Suc (length (returned rs1))] = ?f 0 # map (\<lambda>i. ?f (Suc i)) [0..<length (returned rs1)]"
      by (simp only: upt_conv_Cons[of 0] map_Suc_upt[symmetric] list.map map_map o_def)
    with tl f have "returned rs = map ?f [0..<length (returned rs)]"
      using eqs Inr by simp
    moreover from IH s eqs Inr have "current_number self' = current_number self + int (length (returned rs))"
      by simp
    moreover from IH s eqs have "dir_name self' = dir_name self" by simp
    moreover from IH eqs have "length rs = length (call # calls)" by simp
    ultimately show ?thesis by simp
  qed
qed


section \<open>The constructor and \<open>figsave\<close>\<close>

lemma Inr_collapse: "\<not> isl (fst X) \<Longrightarrow> X = (Inr (projr (fst X)), snd X)"
  by (cases X) (auto simp: isl_def)

lemma distinct_names:
  "0 \<le> n \<Longrightarrow> distinct (map (\<lambda>i. join d (fmt_figure_png (n + int i))) [0..<K])"
proof -
  assume n: "0 \<le> n"
  have "inj_on (\<lambda>i. join d (fmt_figure_png (n + int i))) (set [0..<K])"
  proof (rule inj_onI)
    fix x y
    assume "join d (fmt_figure_png (n + int x)) = join d (fmt_figure_png (n + int y))"
    moreover from n have "0 \<le> n + int x" "0 \<le> n + int y" by simp_all
    ultimately have "n + int x = n + int y" by (metis join_figure_inj)
    then show "x = y" by simp
  qed
  then show ?thesis by (simp add: distinct_map)
qed

lemma shift_names:
  "map (\<lambda>i. f (1 + int i)) [0..<K] = map (\<lambda>k. f (int k)) [1..<Suc K]"
proof -
  have "map (\<lambda>k. f (int k)) [1..<Suc K] = map (\<lambda>k. f (int k)) (map Suc [0..<K])"
    by (simp only: map_Suc_upt One_nat_def)
  then show ?thesis by (simp add: o_def)
qed

text \<open>
  Claim C1. On a handler that the constructor returned, consecutive \<open>figsave\<close> calls
  return, in call order, the paths of \<open>figure_001.png\<close>, \<open>figure_002.png\<close>, ... in the
  handler's directory: the counter starts at 1, the k-th call that returns gets number k,
  the names are pairwise different, and the counter ends at one more than the number of
  files named. (A call that raises returns no name and takes no number.)
\<close>

theorem figsave_names_sequential:
  assumes "FigureDisplay_init env cwd rn st pd kw fs0 = (Inr self, fs1)"
    and "figsave_calls env self calls fs = (rs, self', fs')"
  shows "current_number self = 1
       \<and> returned rs = map (\<lambda>k. join (dir_name self) (fmt_figure_png (int k)))
                          [1..<Suc (length (returned rs))]
       \<and> distinct (returned rs)
       \<and> current_number self' = 1 + int (length (returned rs))
       \<and> length rs = length calls"
proof -
  have one: "current_number self = 1"
    using init_Inr [OF assms(1)] by simp
  note inv = figsave_calls_names [OF assms(2)]
  from inv one have names: "returned rs = map (\<lambda>i. join (dir_name self) (fmt_figure_png (1 + int i)))
                          [0..<length (returned rs)]" by simp
  have "distinct (map (\<lambda>i. join (dir_name self) (fmt_figure_png (1 + int i))) [0..<length (returned rs)])"
    by (rule distinct_names) simp
  with names have "distinct (returned rs)" by simp
  moreover from names have "returned rs = map (\<lambda>k. join (dir_name self) (fmt_figure_png (int k)))
                          [1..<Suc (length (returned rs))]"
    by (simp only: shift_names [where f = "\<lambda>k. join (dir_name self) (fmt_figure_png k)"])
  ultimately show ?thesis using inv one by simp
qed

theorem figsave_names_sequential_witness:
  "\<not> isl (fst rep_init)
   \<and> fst rep_saves = [Inr ''/home/u/figures/rep/figure_001.png'',
                      Inr ''/home/u/figures/rep/figure_002.png'',
                      Inr ''/home/u/figures/rep/figure_003.png'']
   \<and> distinct (returned (fst rep_saves))
   \<and> current_number (fst (snd rep_saves)) = 4"
proof -
  have ok: "\<not> isl (fst rep_init)" by code_simp
  then have init: "FigureDisplay_init (disk_env blank) ''/home/u'' ''rep'' True ''figures''
                Map.empty home_disk = (Inr (projr (fst rep_init)), snd rep_init)"
    unfolding rep_init_def by (rule Inr_collapse)
  have calls: "figsave_calls (disk_env blank) (projr (fst rep_init)) three_calls (snd rep_init)
                 = (fst rep_saves, fst (snd rep_saves), snd (snd rep_saves))"
    by (simp add: rep_saves_def)
  have names: "fst rep_saves = [Inr ''/home/u/figures/rep/figure_001.png'',
                      Inr ''/home/u/figures/rep/figure_002.png'',
                      Inr ''/home/u/figures/rep/figure_003.png'']"
    by code_simp
  note seq = figsave_names_sequential [OF init calls]
  from seq have "distinct (returned (fst rep_saves))" by (elim conjE)
  moreover from seq have "current_number (fst (snd rep_saves)) = 1 + int (length (returned (fst rep_saves)))"
    by (elim conjE)
  then have "current_number (fst (snd rep_saves)) = 4" by (simp add: names)
  ultimately show ?thesis using ok names by (intro conjI)
qed

lemma startswith_slash: "startswith s ''/'' \<longleftrightarrow> (\<exists>t. s = CHR ''/'' # t)"
  by (cases s) (auto simp: startswith_def)

lemma normpath_absolute: "startswith p ''/'' \<Longrightarrow> startswith (normpath p) ''/''"
  by (auto simp: normpath_def Let_def startswith_slash numeral_2_eq_2)

lemma join_absolute: "startswith a ''/'' \<or> startswith b ''/'' \<Longrightarrow> startswith (join a b) ''/''"
  by (auto simp: join_def startswith_slash)

lemma abspath_absolute: "startswith cwd ''/'' \<Longrightarrow> startswith (abspath cwd p) ''/''"
  by (simp add: abspath_def normpath_absolute join_absolute)

lemma length_fmt_03d_max: "0 \<le> n \<Longrightarrow> length (fmt_03d n) = max 3 (length (digits10 (nat n)))"
  by (auto simp: fmt_03d_def Let_def)

lemma digits10_enough: "n < 10 ^ length (digits10 n)"
proof (induction n rule: digits10.induct)
  case (1 n)
  show ?case
  proof (cases "n < 10")
    case True
    then show ?thesis by (subst digits10.simps) simp
  next
    case False
    with 1 have "n div 10 < 10 ^ length (digits10 (n div 10))" by simp
    then have "n < 10 * 10 ^ length (digits10 (n div 10))" by linarith
    with False show ?thesis by (subst digits10.simps) simp
  qed
qed

lemma figsave_savefig:
  assumes "figsave env self fig title fs = (Inr fname, self', fig', fs')"
  shows "\<exists>fig1. fig_savefig env fs fig1 fname ''tight'' (fig_facecolor fig1) = (None, fs')"
  using assms
  by (auto simp: figsave_def Let_def split: prod.splits option.splits)

lemma Inr_collapse4:
  "\<not> isl (fst X) \<Longrightarrow> X = (Inr (projr (fst X)), fst (snd X), fst (snd (snd X)), snd (snd (snd X)))"
  by (cases X) (auto simp: isl_def)

text \<open>
  Claim C8. A save that returns, on a handler the constructor made (after any earlier
  saves), returns the path it wrote to: the figure name joined onto the join of the
  absolute parent directory and the report name. The path is absolute when the working
  directory is (as \<open>os.getcwd()\<close> always is). The number in the name is the counter
  before the call, at least 1, printed as its decimal digits left-padded with zeros to
  three characters: the width is the larger of 3 and the number of digits, the digits
  read back give the counter, and there are enough digits for it, so a counter of 1000
  or more is printed in full.
\<close>

theorem figsave_returns_path:
  assumes init: "FigureDisplay_init env cwd rn st pd kw fs0 = (Inr self0, fs1)"
    and history: "figsave_calls env self0 calls fs2 = (rs, self, fs3)"
    and save: "figsave env self fig title fs = (Inr fname, self', fig', fs')"
    and cwd: "startswith cwd ''/''"
  shows "fname = join (join (abspath cwd pd) rn)
                   (''figure_'' @ fmt_03d (current_number self) @ ''.png'')
       \<and> startswith fname ''/''
       \<and> (\<exists>fig1. fig_savefig env fs fig1 fname ''tight'' (fig_facecolor fig1) = (None, fs'))
       \<and> 1 \<le> current_number self
       \<and> fmt_03d (current_number self)
           = replicate (3 - length (digits10 (nat (current_number self)))) CHR ''0''
             @ digits10 (nat (current_number self))
       \<and> length (fmt_03d (current_number self))
           = max 3 (length (digits10 (nat (current_number self))))
       \<and> int (read10 (fmt_03d (current_number self))) = current_number self
       \<and> nat (current_number self) < 10 ^ length (digits10 (nat (current_number self)))"
proof -
  let ?n = "current_number self"
  have s0: "current_number self0 = 1" "dir_name self0 = join (abspath cwd pd) rn"
    using init_Inr [OF init] by simp_all
  note inv = figsave_calls_names [OF history]
  from inv s0 have n: "1 \<le> ?n" and d: "dir_name self = join (abspath cwd pd) rn"
    by simp_all
  from figsave_Inr(1) [OF save] d
  have f: "fname = join (join (abspath cwd pd) rn) (''figure_'' @ fmt_03d ?n @ ''.png'')"
    by (simp add: fmt_figure_png_def)
  from cwd have "startswith (join (abspath cwd pd) rn) ''/''"
    by (simp add: join_absolute abspath_absolute)
  then have a: "startswith fname ''/''"
    unfolding f by (simp add: join_absolute)
  from n have p: "fmt_03d ?n = replicate (3 - length (digits10 (nat ?n))) CHR ''0'' @ digits10 (nat ?n)"
    by (simp add: fmt_03d_def Let_def)
  from n have l: "length (fmt_03d ?n) = max 3 (length (digits10 (nat ?n)))"
    by (simp add: length_fmt_03d_max)
  from n have r: "int (read10 (fmt_03d ?n)) = ?n" by (simp add: read10_fmt_03d)
  show ?thesis
    using f a figsave_savefig [OF save] n p l r digits10_enough [of "nat ?n"]
    by (intro conjI)
qed

theorem figsave_returns_path_witness:
  "startswith ''/home/u'' ''/''
   \<and> fst rep_fourth = Inr ''/home/u/figures/rep/figure_004.png''
   \<and> startswith (projr (fst rep_fourth)) ''/''
   \<and> current_number (fst (snd rep_saves)) = 4
   \<and> length (fmt_03d (current_number (fst (snd rep_saves)))) = 3"
proof -
  have ok: "\<not> isl (fst rep_init)" by code_simp
  then have init: "FigureDisplay_init (disk_env blank) ''/home/u'' ''rep'' True ''figures''
                Map.empty home_disk = (Inr (projr (fst rep_init)), snd rep_init)"
    unfolding rep_init_def by (rule Inr_collapse)
  have calls: "figsave_calls (disk_env blank) (projr (fst rep_init)) three_calls (snd rep_init)
                 = (fst rep_saves, fst (snd rep_saves), snd (snd rep_saves))"
    by (simp add: rep_saves_def)
  have "\<not> isl (fst rep_fourth)" by code_simp
  then have save: "figsave (disk_env blank) (fst (snd rep_saves)) blank None (snd (snd rep_saves))
     = (Inr (projr (fst rep_fourth)), fst (snd rep_fourth), fst (snd (snd rep_fourth)),
        snd (snd (snd rep_fourth)))"
    unfolding rep_fourth_def by (rule Inr_collapse4)
  have cwd: "startswith ''/home/u'' ''/''" by code_simp
  have name: "fst rep_fourth = Inr ''/home/u/figures/rep/figure_004.png''" by code_simp
  have four: "current_number (fst (snd rep_saves)) = 4" by code_simp
  note path = figsave_returns_path [OF init calls save cwd]
  from path have abs: "startswith (projr (fst rep_fourth)) ''/''" by (elim conjE)
  from path have "length (fmt_03d (current_number (fst (snd rep_saves))))
           = max 3 (length (digits10 (nat (current_number (fst (snd rep_saves))))))"
    by (elim conjE)
  moreover have "length (digits10 (nat 4)) = 1" by code_simp
  ultimately have len: "length (fmt_03d (current_number (fst (snd rep_saves)))) = 3"
    by (simp add: four)
  show ?thesis using cwd name abs four len by (intro conjI)
qed

text \<open>
  Claim C3, as the code has it. The counter moves exactly when the write returns: a save
  that returns a name leaves the handler with the counter one higher and nothing else
  changed; a save that raises leaves the handler as it was, so the next save uses the
  same number again. The save raises exactly when \<open>savefig\<close> does, with its exception.
\<close>

theorem figsave_counter_moves_on_success_only:
  assumes "figsave env self fig title fs = (r, self', fig', fs')"
  shows "(case r of
            Inl e \<Rightarrow> self' = self
          | Inr fname \<Rightarrow> self' = self\<lparr>current_number := current_number self + 1\<rparr>)
       \<and> (let fig1 = (case title of
                        Some t \<Rightarrow> if show_title self
                                  then Figure_suptitle fig t (suptitle_kwargs self) else fig
                      | None \<Rightarrow> fig);
               fname = join (dir_name self) (fmt_figure_png (current_number self))
           in (case fst (fig_savefig env fs fig1 fname ''tight'' (fig_facecolor fig1)) of
                 Some e \<Rightarrow> r = Inl e
               | None \<Rightarrow> r = Inr fname))"
  using assms
  by (auto simp: figsave_def Let_def split: prod.splits option.splits sum.splits)

theorem figsave_counter_moves_on_success_only_witness:
  "\<not> isl (fst rep_fourth)
   \<and> current_number (fst (snd rep_fourth)) = current_number (fst (snd rep_saves)) + 1"
proof -
  have ok: "\<not> isl (fst rep_fourth)" by code_simp
  then obtain fname where r: "fst rep_fourth = Inr fname" by (cases "fst rep_fourth") auto
  have "figsave (disk_env blank) (fst (snd rep_saves)) blank None (snd (snd rep_saves))
     = (fst rep_fourth, fst (snd rep_fourth), fst (snd (snd rep_fourth)),
        snd (snd (snd rep_fourth)))"
    by (simp add: rep_fourth_def)
  from figsave_counter_moves_on_success_only [OF this] r
  have "fst (snd rep_fourth)
          = (fst (snd rep_saves))\<lparr>current_number := current_number (fst (snd rep_saves)) + 1\<rparr>"
    by simp
  then have "current_number (fst (snd rep_fourth)) = current_number (fst (snd rep_saves)) + 1"
    by simp
  with ok show ?thesis by simp
qed

text \<open>
  Against claim C3 as stated: the report directory has vanished, the write fails with
  \<open>FileNotFoundError\<close>, and the counter is still 1 afterwards.
\<close>

theorem failed_save_keeps_number:
  "fst rep_lost = Inl FileNotFoundError
   \<and> current_number (projr (fst rep_init)) = 1
   \<and> current_number (fst (snd rep_lost)) = 1"
  by code_simp

text \<open>
  Claim C5. \<open>figdisp\<close> leaves the handler, the figure and the file system exactly as
  \<open>figsave\<close> with the same figure and title does, so the file written is the same; it
  raises what \<open>figsave\<close> raises and otherwise returns what displaying the saved file
  returns. Calling the handler with a figure is \<open>figdisp\<close> on it; calling it without one
  is \<open>figdisp\<close> on pyplot's current figure.
\<close>

theorem figdisp_writes_what_figsave_writes:
  "snd (figdisp env self fig title fs) = snd (figsave env self fig title fs)
   \<and> fst (figdisp env self fig title fs)
       = (case fst (figsave env self fig title fs) of
            Inl e \<Rightarrow> Inl e
          | Inr fname \<Rightarrow>
              display_Image env (snd (snd (snd (figsave env self fig title fs)))) fname)
   \<and> FigureDisplay_call env self (Some fig) title fs = figdisp env self fig title fs
   \<and> FigureDisplay_call env self None title fs = figdisp env self (plt_gcf env) title fs"
  by (auto simp: figdisp_def FigureDisplay_call_def split: prod.splits sum.splits)

theorem figdisp_writes_what_figsave_writes_witness:
  "files (snd (snd (snd titled_disp))) = files (snd (snd (snd titled_save)))
   \<and> map fst (files (snd (snd (snd titled_disp))))
       = [[''home'', ''u'', ''figures'', ''rep'', ''figure_001.png'']]
   \<and> \<not> isl (fst titled_disp)"
proof -
  from figdisp_writes_what_figsave_writes
    [of "disk_env blank" "projr (fst rep_init)" blank "Some ''Residuals''" "snd rep_init"]
  have "snd titled_disp = snd titled_save"
    unfolding titled_disp_def titled_save_def by (elim conjE)
  then have "files (snd (snd (snd titled_disp))) = files (snd (snd (snd titled_save)))"
    by simp
  moreover have "map fst (files (snd (snd (snd titled_disp))))
       = [[''home'', ''u'', ''figures'', ''rep'', ''figure_001.png'']]" by code_simp
  moreover have "\<not> isl (fst titled_disp)" by code_simp
  ultimately show ?thesis by (intro conjI)
qed

lemma figsave_calls_keeps_options:
  assumes "figsave_calls env self calls fs = (rs, self', fs')"
  shows "show_title self' = show_title self \<and> suptitle_kwargs self' = suptitle_kwargs self"
  using assms
proof (induction calls arbitrary: self fs rs self' fs')
  case Nil
  then show ?case by simp
next
  case (Cons call calls)
  obtain fig title where call: "call = (fig, title)" by (cases call)
  obtain r self1 fig1 fs1 where s1: "figsave env self fig title fs = (r, self1, fig1, fs1)"
    by (metis prod_cases4)
  obtain rs1 self2 fs2 where s2: "figsave_calls env self1 calls fs1 = (rs1, self2, fs2)"
    by (metis prod_cases3)
  from Cons.prems call s1 s2 have eq: "self' = self2" by simp
  have "show_title self1 = show_title self \<and> suptitle_kwargs self1 = suptitle_kwargs self"
  proof (cases r)
    case (Inl e)
    with s1 have "self1 = self" by (simp add: figsave_Inl)
    then show ?thesis by simp
  next
    case (Inr fname)
    with s1 have "self1 = self\<lparr>current_number := current_number self + 1\<rparr>"
      by (simp add: figsave_Inr)
    then show ?thesis by simp
  qed
  with Cons.IH [OF s2] eq show ?case by simp
qed

text \<open>
  Claim C6. On a handler the constructor made, after any earlier saves, the title
  options are the caller's, and where the caller gave none the defaults \<open>ha = left\<close>,
  \<open>ma = left\<close>, \<open>x = 0\<close>, \<open>va = bottom\<close>. A save hands to \<open>savefig\<close> the figure
  carrying the given title with those options when \<open>show_title\<close> is set and a title is
  passed, and the figure as it came in every other case; its outcome and the file system
  it leaves are those of that \<open>savefig\<close> call, and the figure's super-title after the
  save is the new one in the first case and the old one otherwise.
\<close>

theorem title_stamped_iff_show_title:
  assumes init: "FigureDisplay_init env cwd rn st pd kw fs0 = (Inr self0, fs1)"
    and history: "figsave_calls env self0 calls fs2 = (rs, self, fs3)"
  shows "(\<forall>k. suptitle_kwargs self k =
            (case kw k of
               Some v \<Rightarrow> Some v
             | None \<Rightarrow>
                 (if k = ''ha'' then Some (PStr ''left'')
                  else if k = ''ma'' then Some (PStr ''left'')
                  else if k = ''x'' then Some (PInt 0)
                  else if k = ''va'' then Some (PStr ''bottom'')
                  else None)))
       \<and> (let stamped = (case title of
                            Some t \<Rightarrow>
                              if st then fig\<lparr>fig_suptitle := Some (t, suptitle_kwargs self)\<rparr>
                              else fig
                          | None \<Rightarrow> fig);
               written = fig_savefig env fs stamped
                           (join (dir_name self) (fmt_figure_png (current_number self)))
                           ''tight'' (fig_facecolor stamped)
           in fst (figsave env self fig title fs)
                = (case fst written of
                     Some e \<Rightarrow> Inl e
                   | None \<Rightarrow>
                       Inr (join (dir_name self) (fmt_figure_png (current_number self))))
              \<and> snd (snd (snd (figsave env self fig title fs))) = snd written
              \<and> fig_suptitle (fst (snd (snd (figsave env self fig title fs))))
                  = fig_suptitle stamped)
       \<and> figsave env self fig (Some t) fs
           = (if st
              then figsave env self (fig\<lparr>fig_suptitle := Some (t, suptitle_kwargs self)\<rparr>) None fs
              else figsave env self fig None fs)
       \<and> fig_suptitle (fst (snd (snd (figsave env self fig (Some t) fs))))
           = (if st then Some (t, suptitle_kwargs self) else fig_suptitle fig)
       \<and> fig_suptitle (fst (snd (snd (figsave env self fig None fs)))) = fig_suptitle fig"
proof -
  have self0: "show_title self0 = st" "suptitle_kwargs self0 = default_suptitle_kwargs ++ kw"
    using init_Inr [OF init] by simp_all
  with figsave_calls_keeps_options [OF history]
  have self: "show_title self = st" "suptitle_kwargs self = default_suptitle_kwargs ++ kw"
    by simp_all
  have kws: "\<forall>k. suptitle_kwargs self k =
            (case kw k of
               Some v \<Rightarrow> Some v
             | None \<Rightarrow>
                 (if k = ''ha'' then Some (PStr ''left'')
                  else if k = ''ma'' then Some (PStr ''left'')
                  else if k = ''x'' then Some (PInt 0)
                  else if k = ''va'' then Some (PStr ''bottom'')
                  else None))"
    by (auto simp: self map_add_def default_suptitle_kwargs_def split: option.splits)
  have sv: "let stamped = (case title of
                            Some t \<Rightarrow>
                              if st then fig\<lparr>fig_suptitle := Some (t, suptitle_kwargs self)\<rparr>
                              else fig
                          | None \<Rightarrow> fig);
               written = fig_savefig env fs stamped
                           (join (dir_name self) (fmt_figure_png (current_number self)))
                           ''tight'' (fig_facecolor stamped)
           in fst (figsave env self fig title fs)
                = (case fst written of
                     Some e \<Rightarrow> Inl e
                   | None \<Rightarrow>
                       Inr (join (dir_name self) (fmt_figure_png (current_number self))))
              \<and> snd (snd (snd (figsave env self fig title fs))) = snd written
              \<and> fig_suptitle (fst (snd (snd (figsave env self fig title fs))))
                  = fig_suptitle stamped"
    by (auto simp: figsave_def Let_def self(1) Figure_suptitle_def plt_close_def
             split: prod.splits option.splits)
  have eq: "figsave env self fig (Some t) fs
           = (if st
              then figsave env self (fig\<lparr>fig_suptitle := Some (t, suptitle_kwargs self)\<rparr>) None fs
              else figsave env self fig None fs)"
    by (simp add: figsave_def self(1) Figure_suptitle_def)
  have st1: "fig_suptitle (fst (snd (snd (figsave env self fig (Some t) fs))))
           = (if st then Some (t, suptitle_kwargs self) else fig_suptitle fig)"
    by (simp add: figsave_def Let_def self(1) Figure_suptitle_def plt_close_def
             split: prod.splits option.splits)
  have st2: "fig_suptitle (fst (snd (snd (figsave env self fig None fs)))) = fig_suptitle fig"
    by (simp add: figsave_def Let_def plt_close_def split: prod.splits option.splits)
  show ?thesis using kws sv eq st1 st2 by (intro conjI)
qed

theorem title_stamped_iff_show_title_witness:
  "\<not> isl (fst styled_init)
   \<and> current_number (fst (snd styled_saves)) = 4
   \<and> suptitle_kwargs (fst (snd styled_saves)) ''x'' = Some (PInt 1)
   \<and> suptitle_kwargs (fst (snd styled_saves)) ''ha'' = Some (PStr ''left'')
   \<and> fst styled_save = Inr ''/home/u/figures/rep/figure_004.png''
   \<and> map_option fst (fig_suptitle (fst (snd (snd styled_save)))) = Some ''Residuals''"
proof -
  have ok: "\<not> isl (fst styled_init)" by code_simp
  then have init: "FigureDisplay_init (disk_env blank) ''/home/u'' ''rep'' True ''figures''
                  [''x'' \<mapsto> PInt 1] home_disk = (Inr (projr (fst styled_init)), snd styled_init)"
    unfolding styled_init_def by (rule Inr_collapse)
  have calls: "figsave_calls (disk_env blank) (projr (fst styled_init)) three_calls
                 (snd styled_init)
                 = (fst styled_saves, fst (snd styled_saves), snd (snd styled_saves))"
    by (simp add: styled_saves_def)
  note stamp = title_stamped_iff_show_title
    [OF init calls, where fig = blank and t = "''Residuals''" and title = "Some ''Residuals''"
       and fs = "snd (snd styled_saves)"]
  from stamp have kws: "\<forall>k. suptitle_kwargs (fst (snd styled_saves)) k =
            (case [''x'' \<mapsto> PInt 1] k of
               Some v \<Rightarrow> Some v
             | None \<Rightarrow>
                 (if k = ''ha'' then Some (PStr ''left'')
                  else if k = ''ma'' then Some (PStr ''left'')
                  else if k = ''x'' then Some (PInt 0)
                  else if k = ''va'' then Some (PStr ''bottom'')
                  else None))" by (elim conjE)
  from kws have x: "suptitle_kwargs (fst (snd styled_saves)) ''x'' = Some (PInt 1)" by simp
  from kws have ha: "suptitle_kwargs (fst (snd styled_saves)) ''ha'' = Some (PStr ''left'')"
    by simp
  from stamp have "fig_suptitle (fst (snd (snd styled_save)))
      = (if True then Some (''Residuals'', suptitle_kwargs (fst (snd styled_saves)))
         else fig_suptitle blank)"
    unfolding styled_save_def by (elim conjE)
  then have t: "map_option fst (fig_suptitle (fst (snd (snd styled_save)))) = Some ''Residuals''"
    by simp
  have four: "current_number (fst (snd styled_saves)) = 4" by code_simp
  have name: "fst styled_save = Inr ''/home/u/figures/rep/figure_004.png''" by code_simp
  show ?thesis using ok four x ha name t by (intro conjI)
qed

section \<open>Directory cleanup in the constructor\<close>

text \<open>
  Claim C2, as the code has it. When \<open>rmtree\<close> raises an \<open>OSError\<close> of any kind (not
  only "no such file"), the constructor goes on to call \<open>makedirs\<close> on the handler's
  directory in the file system that \<open>rmtree\<close> left: it raises exactly what \<open>makedirs\<close>
  raises, and returns the handler if \<open>makedirs\<close> returns, which is what it does when
  \<open>rmtree\<close> returns normally. An exception of \<open>rmtree\<close> that is not an \<open>OSError\<close> leaves
  the constructor, and \<open>makedirs\<close> is not called.
\<close>

theorem init_tolerates_every_OSError:
  assumes "shutil_rmtree env fs (join (abspath cwd pd) rn) = (Some e, fs1)"
  shows "FigureDisplay_init env cwd rn st pd kw fs =
           (if is_OSError e
            then (case os_makedirs env fs1 (join (abspath cwd pd) rn) of
                    (Some e2, fs2) \<Rightarrow> (Inl e2, fs2)
                  | (None, fs2) \<Rightarrow>
                      (Inr \<lparr> report_name = rn, show_title = st, current_number = 1,
                             suptitle_kwargs = default_suptitle_kwargs ++ kw,
                             dir_name = join (abspath cwd pd) rn \<rparr>, fs2))
            else (Inl e, fs1))
       \<and> FigureDisplay_init (env\<lparr>shutil_rmtree := \<lambda>fs' p. (None, fs1)\<rparr>) cwd rn st pd kw fs =
           (case os_makedirs env fs1 (join (abspath cwd pd) rn) of
              (Some e2, fs2) \<Rightarrow> (Inl e2, fs2)
            | (None, fs2) \<Rightarrow>
                (Inr \<lparr> report_name = rn, show_title = st, current_number = 1,
                       suptitle_kwargs = default_suptitle_kwargs ++ kw,
                       dir_name = join (abspath cwd pd) rn \<rparr>, fs2))"
  using assms by (simp add: FigureDisplay_init_def Let_def)

theorem init_tolerates_every_OSError_witness:
  "shutil_rmtree (disk_env blank) locked_disk (join (abspath ''/home/u'' ''figures'') ''rep'')
     = (Some PermissionError, locked_disk)
   \<and> is_OSError PermissionError
   \<and> os_makedirs (disk_env blank) locked_disk (join (abspath ''/home/u'' ''figures'') ''rep'')
     = (Some FileExistsError, locked_disk)
   \<and> locked_init = (Inl FileExistsError, locked_disk)"
proof -
  have p: "join (abspath ''/home/u'' ''figures'') ''rep'' = ''/home/u/figures/rep''"
    by code_simp
  have c: "components ''/home/u/figures/rep'' = [''home'', ''u'', ''figures'', ''rep'']"
    by code_simp
  have rm: "shutil_rmtree (disk_env blank) locked_disk (join (abspath ''/home/u'' ''figures'') ''rep'')
     = (Some PermissionError, locked_disk)"
    by (simp add: p disk_env_def disk_rmtree_def c is_file_def is_dir_def locked_disk_def)
  have mk: "os_makedirs (disk_env blank) locked_disk (join (abspath ''/home/u'' ''figures'') ''rep'')
     = (Some FileExistsError, locked_disk)"
    by (simp add: p disk_env_def disk_makedirs_def c is_file_def is_dir_def locked_disk_def)
  from init_tolerates_every_OSError [OF rm, of True Map.empty]
  have "locked_init = (Inl FileExistsError, locked_disk)"
    by (simp add: locked_init_def mk)
  with rm mk show ?thesis by simp
qed

text \<open>
  Against claim C2 as stated: removal fails with \<open>PermissionError\<close>, which is not the
  "no such file" condition, yet what reaches the caller is the \<open>FileExistsError\<close> of
  the creation step, not the removal's exception.
\<close>

theorem permission_error_not_propagated:
  "fst (shutil_rmtree (disk_env blank) locked_disk (join (abspath ''/home/u'' ''figures'') ''rep''))
     = Some PermissionError
   \<and> PermissionError \<noteq> FileNotFoundError
   \<and> isl (fst locked_init)
   \<and> projl (fst locked_init) = FileExistsError
   \<and> projl (fst locked_init) \<noteq> PermissionError"
  by code_simp

lemma split_on_nonempty: "split_on c xs \<noteq> []"
  by (induction xs) (auto simp: Let_def)

lemma split_on_snoc_sep: "split_on c (xs @ [c]) = split_on c xs @ [[]]"
proof (induction xs)
  case Nil
  show ?case by simp
next
  case (Cons x xs)
  have "split_on c xs \<noteq> []" by (rule split_on_nonempty)
  then obtain w ws where "split_on c xs = w # ws" by (cases "split_on c xs") auto
  with Cons show ?case by (simp add: Let_def)
qed

lemma components_trailing_slash: "components (p @ ''/'') = components p"
  by (simp add: components_def split_on_snoc_sep)

lemma components_join_empty: "components (join a '''') = components a"
  by (simp add: join_def startswith_def components_trailing_slash)

lemma join_empty: "join a '''' = (if a = [] \<or> last a = CHR ''/'' then a else a @ ''/'')"
  by (simp add: join_def startswith_def)

text \<open>
  Claim C10. With the empty report name the handler's directory is the absolute parent
  directory followed by a separator, which names the parent directory itself. On the
  reference disk, when that directory exists, is not the root and holds nothing
  protected, construction succeeds and afterwards the directory exists with nothing
  below it: every directory and file that was under it, the folders of other reports
  included, is gone, and files elsewhere are untouched.
\<close>

theorem empty_report_name_wipes_parent:
  fixes d :: "'c disk"
  assumes P: "P = components (abspath cwd pd)"
    and nonroot: "P \<noteq> []"
    and isdir: "P \<in> set (dirs d)"
    and nofile: "P \<notin> fst ` set (files d)"
    and free: "\<forall>q \<in> set (protected d). \<not> prefix P q"
  shows "\<exists>self d'. FigureDisplay_init (disk_env g) cwd '''' st pd kw d = (Inr self, d')
           \<and> dir_name self = (if last (abspath cwd pd) = CHR ''/'' then abspath cwd pd
                              else abspath cwd pd @ ''/'')
           \<and> components (dir_name self) = P
           \<and> P \<in> set (dirs d')
           \<and> (\<forall>q. strict_prefix P q \<longrightarrow> q \<notin> set (dirs d') \<and> q \<notin> fst ` set (files d'))
           \<and> (\<forall>q. \<not> prefix P q \<longrightarrow> (q \<in> fst ` set (files d') \<longleftrightarrow> q \<in> fst ` set (files d)))"
proof -
  let ?dn = "join (abspath cwd pd) ''''"
  let ?d1 = "d\<lparr>dirs := filter (\<lambda>q. \<not> prefix P q) (dirs d),
                files := filter (\<lambda>(q, f). \<not> prefix P q) (files d)\<rparr>"
  let ?d2 = "?d1\<lparr>dirs := dirs ?d1 @ filter (\<lambda>q. \<not> is_dir ?d1 q) (prefixes P)\<rparr>"
  let ?self = "\<lparr> report_name = '''', show_title = st, current_number = 1,
                  suptitle_kwargs = default_suptitle_kwargs ++ kw, dir_name = ?dn \<rparr>"
  have c: "components ?dn = P" by (simp add: P components_join_empty)
  have ne: "abspath cwd pd \<noteq> []"
    using nonroot P by (auto simp: components_def)
  have rm: "disk_rmtree d ?dn = (None, ?d1)"
    using isdir nofile free by (simp add: disk_rmtree_def c is_file_def is_dir_def)
  have nd: "\<not> is_dir ?d1 P" using nonroot by (simp add: is_dir_def)
  have nf: "\<not> is_file ?d1 P" by (auto simp: is_file_def)
  have mk: "disk_makedirs ?d1 ?dn = (None, ?d2)"
    using nd nf by (simp add: disk_makedirs_def c)
  have init: "FigureDisplay_init (disk_env g) cwd '''' st pd kw d = (Inr ?self, ?d2)"
    by (simp add: FigureDisplay_init_def Let_def disk_env_def rm mk)
  have dn: "dir_name ?self = (if last (abspath cwd pd) = CHR ''/'' then abspath cwd pd
                              else abspath cwd pd @ ''/'')"
    using ne by (simp add: join_empty)
  have inP: "P \<in> set (dirs ?d2)" using nd by simp
  have gone: "\<forall>q. strict_prefix P q \<longrightarrow> q \<notin> set (dirs ?d2) \<and> q \<notin> fst ` set (files ?d2)"
    by (auto simp: strict_prefix_def in_set_prefixes)
  have kept: "\<forall>q. \<not> prefix P q \<longrightarrow> (q \<in> fst ` set (files ?d2) \<longleftrightarrow> q \<in> fst ` set (files d))"
    by force
  show ?thesis
    using init dn c inP gone kept by (intro exI [of _ ?self] exI [of _ ?d2] conjI) simp_all
qed

theorem empty_report_name_wipes_parent_witness:
  "components (abspath ''/home/u'' ''figures'') = [''home'', ''u'', ''figures'']
   \<and> \<not> isl (fst unnamed_init)
   \<and> dir_name (projr (fst unnamed_init)) = ''/home/u/figures/''
   \<and> [''home'', ''u'', ''figures'', ''other''] \<in> set (dirs shared_disk)
   \<and> [''home'', ''u'', ''figures'', ''other''] \<notin> set (dirs (snd unnamed_init))
   \<and> dirs (snd unnamed_init) = [[''home''], [''home'', ''u''], [''home'', ''u'', ''figures'']]
   \<and> map fst (files (snd unnamed_init)) = []"
proof -
  let ?P = "[''home'', ''u'', ''figures'']"
  have P: "?P = components (abspath ''/home/u'' ''figures'')" by code_simp
  have ne: "?P \<noteq> []" by simp
  have isdir: "?P \<in> set (dirs shared_disk)" by (simp add: shared_disk_def)
  have nofile: "?P \<notin> fst ` set (files shared_disk)" by (simp add: shared_disk_def)
  have free: "\<forall>q \<in> set (protected shared_disk). \<not> prefix ?P q" by (simp add: shared_disk_def)
  from empty_report_name_wipes_parent [OF P ne isdir nofile free, of blank True Map.empty]
  obtain self d' where
    init: "FigureDisplay_init (disk_env blank) ''/home/u'' '''' True ''figures'' Map.empty shared_disk
             = (Inr self, d')"
    and gone: "\<forall>q. strict_prefix ?P q \<longrightarrow> q \<notin> set (dirs d') \<and> q \<notin> fst ` set (files d')"
    by blast
  from init have d': "d' = snd unnamed_init" by (simp add: unnamed_init_def)
  have "strict_prefix ?P [''home'', ''u'', ''figures'', ''other'']" by (simp add: strict_prefix_def)
  with gone d' have other: "[''home'', ''u'', ''figures'', ''other''] \<notin> set (dirs (snd unnamed_init))"
    by blast
  have ok: "\<not> isl (fst unnamed_init)" by code_simp
  have dn: "dir_name (projr (fst unnamed_init)) = ''/home/u/figures/''" by code_simp
  have before: "[''home'', ''u'', ''figures'', ''other''] \<in> set (dirs shared_disk)"
    by (simp add: shared_disk_def)
  have ds: "dirs (snd unnamed_init) = [[''home''], [''home'', ''u''], [''home'', ''u'', ''figures'']]"
    by code_simp
  have fs: "map fst (files (snd unnamed_init)) = []" by code_simp
  show ?thesis using P [symmetric] ok dn before other ds fs by (intro conjI)
qed

section \<open>Figure columns of a table\<close>

lemma infer_columns_indexable:
  assumes "\<forall>c \<in> set cols. \<exists>l. getitem1 c = Inr l"
  shows "infer_columns cols = Inr (filter (\<lambda>c. getitem1 c = Inr (LStr ''fig'')) cols)"
  using assms by (induction cols) auto

lemma map_of_const_filter:
  "map_of (map (\<lambda>c. (c, f)) (filter P cols)) = (\<lambda>c. if c \<in> set cols \<and> P c then Some f else None)"
  by (induction cols) (auto simp: fun_eq_iff)

text \<open>
  Claim C4. For a table in which every column label has an item at index 1 (as every
  label of a two-level column index has: its second level), \<open>'infer'\<close> renders the table
  with a formatter map that gives the image formatter to exactly the columns of the
  table whose second-level label \<open>c[1]\<close> is the string \<open>fig\<close>, and no entry (hence the
  default formatting) to every other column.
\<close>

theorem infer_selects_fig_columns:
  assumes "\<forall>c \<in> set (df_columns df). \<exists>l. getitem1 c = Inr l"
  shows "html_from_dataframe pd df (FC_Str ''infer'') =
           to_html pd df (\<lambda>c. if c \<in> set (df_columns df) \<and> getitem1 c = Inr (LStr ''fig'')
                              then Some (cell_figure_mapping pd) else None)
       \<and> (\<forall>a b r. getitem1 (LTuple (a # b # r)) = Inr b)"
  by (simp add: html_from_dataframe_def infer_columns_indexable [OF assms] map_of_const_filter)

theorem infer_selects_fig_columns_witness:
  \<open>df_columns two_level_df = [LTuple [LStr ''model'', LStr ''name''],
                                LTuple [LStr ''residuals'', LStr ''fig'']]
   \<and> html_from_dataframe plain_pandas two_level_df (FC_Str ''infer'')
       = to_html plain_pandas two_level_df
           (\<lambda>c. if c \<in> set (df_columns two_level_df) \<and> getitem1 c = Inr (LStr ''fig'')
                then Some (cell_figure_mapping plain_pandas) else None)
   \<and> html_from_dataframe plain_pandas two_level_df (FC_Str ''infer'')
       = Inr ''<td>ols</td><td><img src="data:image/png;base64,iVBOR" /></td>''\<close>
proof -
  have two: "\<forall>c \<in> set (df_columns two_level_df). \<exists>l. getitem1 c = Inr l"
    by (simp add: two_level_df_def)
  from infer_selects_fig_columns [OF two, of plain_pandas]
  have sel: "html_from_dataframe plain_pandas two_level_df (FC_Str ''infer'')
       = to_html plain_pandas two_level_df
           (\<lambda>c. if c \<in> set (df_columns two_level_df) \<and> getitem1 c = Inr (LStr ''fig'')
                then Some (cell_figure_mapping plain_pandas) else None)"
    by (elim conjE)
  have out: \<open>html_from_dataframe plain_pandas two_level_df (FC_Str ''infer'')
       = Inr ''<td>ols</td><td><img src="data:image/png;base64,iVBOR" /></td>''\<close>
    by code_simp
  have cols: "df_columns two_level_df = [LTuple [LStr ''model'', LStr ''name''],
                                LTuple [LStr ''residuals'', LStr ''fig'']]"
    by (simp add: two_level_df_def)
  show ?thesis using cols sel out by (intro conjI)
qed

lemma assert_columns_iff:
  "assert_columns pd df cs =
     (if \<forall>c \<in> set cs. Index_contains pd (df_columns df) c then None else Some AssertionError)"
  by (induction cs) auto

text \<open>
  Claim C7. With an explicit list of figure columns, the table is rendered only if the
  column index contains every requested label; if it lacks any of them the call raises
  \<open>AssertionError\<close> and returns no string. (Assertions are enabled, as they are unless
  the interpreter is started with optimisation.)
\<close>

theorem missing_column_raises:
  "html_from_dataframe pd df (FC_List cs) =
     (if \<forall>c \<in> set cs. Index_contains pd (df_columns df) c
      then to_html pd df (map_of (map (\<lambda>c. (c, cell_figure_mapping pd)) cs))
      else Inl AssertionError)"
  by (simp add: html_from_dataframe_def assert_columns_iff)

theorem missing_column_raises_witness:
  "\<not> Index_contains plain_pandas (df_columns flat_df) (LStr ''missing'')
   \<and> html_from_dataframe plain_pandas flat_df (FC_List [LStr ''plot'', LStr ''missing''])
       = Inl AssertionError"
proof -
  have absent: "\<not> (\<forall>c \<in> set [LStr ''plot'', LStr ''missing''].
          Index_contains plain_pandas (df_columns flat_df) c)"
    by (simp add: plain_pandas_def flat_df_def)
  with missing_column_raises [of plain_pandas flat_df "[LStr ''plot'', LStr ''missing'']"]
  have "html_from_dataframe plain_pandas flat_df (FC_List [LStr ''plot'', LStr ''missing''])
       = Inl AssertionError"
    by (simp only: if_False)
  moreover have "\<not> Index_contains plain_pandas (df_columns flat_df) (LStr ''missing'')"
    by (simp add: plain_pandas_def flat_df_def)
  ultimately show ?thesis by (intro conjI)
qed

section \<open>Residuals\<close>

lemma scatter_points_append:
  "scatter_points (xs @ ys) = scatter_points xs @ scatter_points ys"
  by (induction xs rule: scatter_points.induct) auto

lemma zip_residuals:
  assumes "length obs = length pred"
  shows "zip pred (map2 (-) obs pred) = map (\<lambda>i. (pred ! i, obs ! i - pred ! i)) [0..<length obs]"
  using assms by (intro nth_equalityI) simp_all

lemma map2_residuals:
  assumes "length obs = length pred"
  shows "map2 (-) obs pred = map (\<lambda>i. obs ! i - pred ! i) [0..<length obs]"
  using assms by (intro nth_equalityI) simp_all

lemma plot_residuals_equal_length:
  assumes "length obs = length pred"
  shows "plot_residuals obs pred ax yl =
           Inr ((case ax of None \<Rightarrow> [] | Some a \<Rightarrow> a) @ [Plot pred (map2 (-) obs pred) ''o'']
                @ [Despine, Axhline_zero, Set_xlabel ''Predicted'']
                @ (if yl then [Set_ylabel ''Obs $-$ Pred''] else [])
                @ [Text_at_xmax_ymax ''Overestimation'', Text_at_xmax_ymin ''Underestimation''])"
  using assms by (simp add: plot_residuals_def np_sub_def ax_plot_def Let_def)

lemma actual_plot_nonempty:
  assumes "obs \<noteq> []" "pred \<noteq> []"
  shows "\<exists>ax. actual_plot_observed_vs_predicted obs pred a yl = Inr ax"
proof -
  from assms obtain x xs y ys where "obs = x # xs" "pred = y # ys"
    by (cases obs; cases pred) auto
  then show ?thesis
    by (simp add: actual_plot_observed_vs_predicted_def Let_def)
qed

text \<open>
  Claim C9. For observations and predictions of equal length, \<open>plot_residuals\<close> returns
  and adds to the scatter one point per index, at the prediction and the observation
  minus the prediction; and for nonempty data \<open>plot_observed_vs_predicted\<close> returns with
  these points in its residual axes and with the observations minus the predictions, in
  order, as the input of the density plot.
\<close>

theorem residuals_are_observed_minus_predicted:
  assumes len: "length observations = length predictions"
  shows "(\<exists>ax'. plot_residuals observations predictions ax yl = Inr ax'
            \<and> scatter_points ax' =
                scatter_points (case ax of None \<Rightarrow> [] | Some a \<Rightarrow> a)
                @ map (\<lambda>i. (predictions ! i, observations ! i - predictions ! i))
                    [0..<length observations])
       \<and> (observations \<noteq> [] \<longrightarrow>
            (\<exists>a1 a2 a3. plot_observed_vs_predicted np observations predictions = Inr (a1, a2, a3)
               \<and> scatter_points a2 =
                   map (\<lambda>i. (predictions ! i, observations ! i - predictions ! i))
                     [0..<length observations]
               \<and> density_input a3 =
                   map (\<lambda>i. observations ! i - predictions ! i) [0..<length observations]))"
proof (intro conjI impI)
  show "\<exists>ax'. plot_residuals observations predictions ax yl = Inr ax'
            \<and> scatter_points ax' =
                scatter_points (case ax of None \<Rightarrow> [] | Some a \<Rightarrow> a)
                @ map (\<lambda>i. (predictions ! i, observations ! i - predictions ! i))
                    [0..<length observations]"
    by (simp add: plot_residuals_equal_length [OF len] scatter_points_append
          zip_residuals [OF len])
next
  assume ne: "observations \<noteq> []"
  with len have "predictions \<noteq> []" by auto
  with ne obtain a1 where
    a1: "actual_plot_observed_vs_predicted observations predictions (Some []) True = Inr a1"
    using actual_plot_nonempty by blast
  let ?a2 = "[Plot predictions (map2 (-) observations predictions) ''o'',
              Despine, Axhline_zero, Set_xlabel ''Predicted'', Set_ylabel ''Obs $-$ Pred'',
              Text_at_xmax_ymax ''Overestimation'', Text_at_xmax_ymin ''Underestimation'']"
  let ?a3 = "plot_residual_kde np (map2 (-) observations predictions) []"
  have a2: "plot_residuals observations predictions (Some []) True = Inr ?a2"
    by (simp add: plot_residuals_equal_length [OF len])
  have sub: "np_sub observations predictions = Inr (map2 (-) observations predictions)"
    using len by (simp add: np_sub_def)
  have run: "plot_observed_vs_predicted np observations predictions = Inr (a1, ?a2, ?a3)"
    by (simp add: plot_observed_vs_predicted_def a1 a2 sub)
  have sc: "scatter_points ?a2 = map (\<lambda>i. (predictions ! i, observations ! i - predictions ! i))
                     [0..<length observations]"
    by (simp add: zip_residuals [OF len])
  have de: "density_input ?a3 = map (\<lambda>i. observations ! i - predictions ! i) [0..<length observations]"
    by (simp add: plot_residual_kde_def Let_def map2_residuals [OF len])
  show "\<exists>a1 a2 a3. plot_observed_vs_predicted np observations predictions = Inr (a1, a2, a3)
               \<and> scatter_points a2 =
                   map (\<lambda>i. (predictions ! i, observations ! i - predictions ! i))
                     [0..<length observations]
               \<and> density_input a3 =
                   map (\<lambda>i. observations ! i - predictions ! i) [0..<length observations]"
    using run sc de by blast
qed

theorem residuals_are_observed_minus_predicted_witness:
  "length [3, 5 :: int] = length [1, 8 :: int]
   \<and> (\<exists>a1 a2 a3. plot_observed_vs_predicted int_numpy [3, 5] [1, 8] = Inr (a1, a2, a3)
         \<and> scatter_points a2 = [(1, 2), (8, - 3)]
         \<and> density_input a3 = [2, - 3])"
proof -
  have len: "length [3, 5 :: int] = length [1, 8 :: int]" by simp
  from residuals_are_observed_minus_predicted [OF len, of None True int_numpy]
  obtain a1 a2 a3 where
    "plot_observed_vs_predicted int_numpy [3, 5] [1, 8] = Inr (a1, a2, a3)"
    "scatter_points a2 = map (\<lambda>i. ([1, 8] ! i, [3, 5] ! i - [1, 8 :: int] ! i)) [0..<length [3, 5 :: int]]"
    "density_input a3 = map (\<lambda>i. [3, 5] ! i - [1, 8 :: int] ! i) [0..<length [3, 5 :: int]]"
    by auto
  moreover have "[0..<length [3, 5 :: int]] = [0, 1]" by (simp add: upt_rec)
  ultimately have "plot_observed_vs_predicted int_numpy [3, 5] [1, 8] = Inr (a1, a2, a3)
         \<and> scatter_points a2 = [(1, 2), (8, - 3)]
         \<and> density_input a3 = [2, - 3]"
    by simp
  with len show ?thesis by blast
qed

end
